theory Spec2Isabelle
  imports Complex_Main "HOL-Library.Char_ord" "HOL-Library.List_Lexorder"
    "HOL-Library.Product_Lexorder"
begin

section \<open>Strings and paths\<close>

text \<open>
  Python strings are modelled as \<open>string\<close> (lists of characters). The helpers below are
  the string operations the launcher uses: \<open>s.startswith(p)\<close>, \<open>sub in s\<close>,
  \<open>s.endswith(p)\<close>, \<open>os.path.join\<close> and \<open>os.path.basename\<close> (POSIX flavour).
\<close>

fun startswith :: "string \<Rightarrow> string \<Rightarrow> bool" where
  "startswith s [] = True"
| "startswith [] (p # ps) = False"
| "startswith (c # cs) (p # ps) = (c = p \<and> startswith cs ps)"

fun str_contains :: "string \<Rightarrow> string \<Rightarrow> bool" where
  "str_contains sub [] = (sub = [])"
| "str_contains sub (c # cs) = (startswith (c # cs) sub \<or> str_contains sub cs)"

definition endswith :: "string \<Rightarrow> string \<Rightarrow> bool" where
  "endswith s p = startswith (rev s) (rev p)"

text \<open>
  \<open>posixpath.join(a, b)\<close>: an absolute \<open>b\<close> replaces the path, an empty path or one
  that ends with the separator takes \<open>b\<close> as it is, otherwise a separator is put between.
\<close>

definition path_join :: "string \<Rightarrow> string \<Rightarrow> string" where
  "path_join a b =
     (if startswith b ''/'' then b
      else if a = [] \<or> endswith a ''/'' then a @ b
      else a @ ''/'' @ b)"

text \<open>\<open>posixpath.basename(p)\<close>: what follows the last separator.\<close>

definition basename :: "string \<Rightarrow> string" where
  "basename p = rev (takeWhile (\<lambda>c. c \<noteq> CHR ''/'') (rev p))"

section \<open>Configuration data\<close>

text \<open>
  The exceptions the modelled code raises. A key error carries the missing key, the other
  ones their message.
\<close>

datatype key = KStr string | KInt int

datatype exn =
    ValueError string
  | KeyError key
  | RuntimeError string
  | FileNotFoundError string

type_synonym task = "string \<times> string \<times> string \<times> string"

record tracer_cfg =
  mask_name :: string

text \<open>
  The object \<open>data\<close> of class \<open>Data\<close>. The fields \<open>tracers\<close>, \<open>output_path\<close> (the
  entry \<open>output\<close>) and the \<open>recompute\<close> flags are the entries of the dictionary
  \<open>data.data\<close> that the launcher reads. The class itself (\<open>xcell/cls/data.py\<close>) is not
  among the sources, so its methods are fields of the record, any function being allowed
  for them: \<open>get_spin\<close> stands for \<open>data.get_mapper(tr).get_spin()\<close> (undefined for a
  tracer that the configuration does not have, where the lookup fails),
  \<open>get_tracer_bare_name\<close>, \<open>get_tracers_bare_name_pair\<close>, \<open>get_cl_trs_names\<close> and
  \<open>get_cov_trs_names\<close> for the methods of these names.
\<close>

record data =
  tracers :: "string \<rightharpoonup> tracer_cfg"
  output_path :: string
  recompute_cls :: bool
  recompute_mcm :: bool
  recompute_cov :: bool
  recompute_cmcm :: bool
  get_spin :: "string \<rightharpoonup> int"
  get_tracer_bare_name :: "string \<Rightarrow> string"
  get_tracers_bare_name_pair :: "string \<Rightarrow> string \<Rightarrow> string \<Rightarrow> string"
  get_cl_trs_names :: "bool \<Rightarrow> (string \<times> string) list"
  get_cov_trs_names :: "bool \<Rightarrow> task list"

section \<open>Resource estimator: \<open>get_mem\<close>\<close>

text \<open>
  The dictionary \<open>d\<close> of per-spin costs, chosen by the mode; any other mode raises
  \<open>ValueError\<close> before a tracer is looked at.
\<close>

definition mem_table :: "string \<Rightarrow> exn + (int \<rightharpoonup> int)" where
  "mem_table compute =
     (if compute = ''cls'' then Inr [0 \<mapsto> 16, 2 \<mapsto> 25]
      else if compute = ''cov'' then Inr [0 \<mapsto> 16, 2 \<mapsto> 47]
      else Inl (ValueError (compute @ '' not defined'')))"

text \<open>
  The loop \<open>for tr in trs: mem += d[mapper.get_spin()]\<close>, with the accumulator \<open>mem\<close>.
  A tracer without mapper and a spin without entry in \<open>d\<close> raise \<open>KeyError\<close>.
\<close>

fun mem_loop :: "(int \<rightharpoonup> int) \<Rightarrow> data \<Rightarrow> int \<Rightarrow> string list \<Rightarrow> exn + int" where
  "mem_loop d dat mem [] = Inr mem"
| "mem_loop d dat mem (tr # trs) =
     (case get_spin dat tr of
        None \<Rightarrow> Inl (KeyError (KStr tr))
      | Some s \<Rightarrow>
          (case d s of
             None \<Rightarrow> Inl (KeyError (KInt s))
           | Some m \<Rightarrow> mem_loop d dat (mem + m) trs))"

definition get_mem :: "data \<Rightarrow> string list \<Rightarrow> string \<Rightarrow> exn + int" where
  "get_mem dat trs compute =
     (case mem_table compute of
        Inl e \<Rightarrow> Inl e
      | Inr d \<Rightarrow> mem_loop d dat 0 trs)"

section \<open>Skip list: \<open>check_skip\<close>\<close>

fun check_skip :: "data \<Rightarrow> string list \<Rightarrow> string list \<Rightarrow> bool" where
  "check_skip dat skip [] = False"
| "check_skip dat skip (tr # trs) =
     (if tr \<in> set skip then True
      else if get_tracer_bare_name dat tr \<in> set skip then True
      else check_skip dat skip trs)"

text \<open>A configuration for examples: tracers \<open>A__0\<close> (spin 0) and \<open>B__2\<close> (spin 2).\<close>

definition bare_of :: "string \<Rightarrow> string" where
  "bare_of tr =
     (if tr = ''A__0'' then ''A'' else if tr = ''B__2'' then ''B''
      else if tr = ''SURVEY__0'' then ''SURVEY'' else tr)"

definition example_data :: data where
  "example_data =
     \<lparr> tracers = [''A__0'' \<mapsto> \<lparr> mask_name = ''mA'' \<rparr>, ''B__2'' \<mapsto> \<lparr> mask_name = ''mB'' \<rparr>],
       output_path = ''out'',
       recompute_cls = False, recompute_mcm = False,
       recompute_cov = False, recompute_cmcm = False,
       get_spin = [''A__0'' \<mapsto> 0, ''B__2'' \<mapsto> 2],
       get_tracer_bare_name = bare_of,
       get_tracers_bare_name_pair = (\<lambda>a b sep. bare_of a @ sep @ bare_of b),
       get_cl_trs_names = (\<lambda>w. if w then [(''A__0'', ''B__2'')] else []),
       get_cov_trs_names =
         (\<lambda>w. if w then [(''A__0'', ''B__2'', ''A__0'', ''B__2'')] else []) \<rparr>"

section \<open>Workspace files: \<open>save_wsp\<close> and \<open>read_wsp\<close>\<close>

text \<open>
  The world of \<open>xcell/cls/tools.py\<close>: the set of regular files that exist, and the trace
  of the calls that touch them, in the order they are made.
\<close>

datatype event = WriteTo string | ReadFrom string bool | Remove string

record world =
  files :: "string set"
  trace :: "event list"

text \<open>
  \<open>wsp.write_to\<close> and \<open>wsp.read_from\<close> belong to the external library. A call is any
  function of the calls made so far and of the files: it may raise, and it may change the
  files (a write that aborts midway can leave a file behind).
\<close>

type_synonym ext_op = "event list \<Rightarrow> string set \<Rightarrow> exn option \<times> string set"

definition call_ext :: "event \<Rightarrow> ext_op \<Rightarrow> world \<Rightarrow> exn option \<times> world" where
  "call_ext ev f w =
     (case f (trace w) (files w) of
        (r, fs) \<Rightarrow> (r, \<lparr> files = fs, trace = trace w @ [ev] \<rparr>))"

text \<open>\<open>os.remove\<close> deletes an existing file and raises for a missing one.\<close>

definition os_remove :: "string \<Rightarrow> world \<Rightarrow> exn option \<times> world" where
  "os_remove p w =
     (if p \<in> files w
      then (None, \<lparr> files = files w - {p}, trace = trace w @ [Remove p] \<rparr>)
      else (Some (FileNotFoundError p), \<lparr> files = files w, trace = trace w @ [Remove p] \<rparr>))"

text \<open>
  \<open>save_wsp(wsp, fname)\<close>. The result is the exception that leaves the function, if any,
  and the world afterwards. Only \<open>RuntimeError\<close> is caught.
\<close>

definition save_wsp :: "(string \<Rightarrow> ext_op) \<Rightarrow> string \<Rightarrow> world \<Rightarrow> exn option \<times> world" where
  "save_wsp write_to fname w =
     (if fname \<in> files w then (None, w)
      else
        (case call_ext (WriteTo fname) (write_to fname) w of
           (None, w1) \<Rightarrow> (None, w1)
         | (Some (RuntimeError msg), w1) \<Rightarrow>
             (if str_contains ''Error writing'' msg
              then
                (case os_remove fname w1 of
                   (Some e, w2) \<Rightarrow> (Some e, w2)
                 | (None, w2) \<Rightarrow> call_ext (WriteTo fname) (write_to fname) w2)
              else (Some (RuntimeError msg), w1))
         | (Some e, w1) \<Rightarrow> (Some e, w1)))"




definition broken_write :: "string \<Rightarrow> ext_op" where
  "broken_write fname tr fs = (Some (RuntimeError ''Error writing workspace''), insert fname fs)"

section \<open>Workspace grouping: \<open>get_jobs_with_same_cwsp\<close>\<close>

text \<open>
  \<open>np.unique(rows, axis=0).tolist()\<close>: the rows are sorted lexicographically (strings by
  their characters) and a row equal to its predecessor is dropped.
\<close>

definition unique_rows :: "'a::linorder list \<Rightarrow> 'a list" where
  "unique_rows rows = remdups_adj (sort rows)"

text \<open>The first three lines of the function: both partitions, merged.\<close>

definition cov_tracers_all :: "data \<Rightarrow> task list" where
  "cov_tracers_all dat =
     unique_rows (get_cov_trs_names dat True @ get_cov_trs_names dat False)"

text \<open>\<open>data.data['tracers'][trsi]["mask_name"]\<close>, a \<open>KeyError\<close> for an unknown tracer.\<close>

definition mask_of :: "data \<Rightarrow> string \<Rightarrow> exn + string" where
  "mask_of dat trsi =
     (case tracers dat trsi of
        None \<Rightarrow> Inl (KeyError (KStr trsi))
      | Some t \<Rightarrow> Inr (mask_name t))"

text \<open>The list comprehension over the four tracers of a task, in task order.\<close>

fun masks_of :: "data \<Rightarrow> task \<Rightarrow> exn + (string \<times> string \<times> string \<times> string)" where
  "masks_of dat (t1, t2, t3, t4) =
     (case mask_of dat t1 of Inl e \<Rightarrow> Inl e | Inr mask1 \<Rightarrow>
      case mask_of dat t2 of Inl e \<Rightarrow> Inl e | Inr mask2 \<Rightarrow>
      case mask_of dat t3 of Inl e \<Rightarrow> Inl e | Inr mask3 \<Rightarrow>
      case mask_of dat t4 of Inl e \<Rightarrow> Inl e | Inr mask4 \<Rightarrow>
        Inr (mask1, mask2, mask3, mask4))"

definition cwsp_name :: "string \<times> string \<times> string \<times> string \<Rightarrow> string" where
  "cwsp_name m =
     (case m of (mask1, mask2, mask3, mask4) \<Rightarrow>
        ''cov/cw__'' @ mask1 @ ''__'' @ mask2 @ ''__'' @ mask3 @ ''__'' @ mask4 @ ''.fits'')"

definition cwsp_path :: "data \<Rightarrow> task \<Rightarrow> exn + string" where
  "cwsp_path dat trs =
     (case masks_of dat trs of
        Inl e \<Rightarrow> Inl e
      | Inr m \<Rightarrow> Inr (path_join (output_path dat) (cwsp_name m)))"

text \<open>
  The dictionary \<open>cwsp\<close> keeps its keys in insertion order, so it is a list of pairs;
  \<open>dict_append\<close> is \<open>if k in d: d[k].append(v) else: d[k] = [v]\<close>.
\<close>

fun dict_append :: "('k \<times> 'v list) list \<Rightarrow> 'k \<Rightarrow> 'v \<Rightarrow> ('k \<times> 'v list) list" where
  "dict_append [] k v = [(k, [v])]"
| "dict_append ((k', vs) # d) k v =
     (if k' = k then (k', vs @ [v]) # d else (k', vs) # dict_append d k v)"

fun cwsp_loop ::
  "data \<Rightarrow> (string \<times> task list) list \<Rightarrow> task list \<Rightarrow> exn + (string \<times> task list) list" where
  "cwsp_loop dat cwsp [] = Inr cwsp"
| "cwsp_loop dat cwsp (trs # rest) =
     (case cwsp_path dat trs of
        Inl e \<Rightarrow> Inl e
      | Inr fname \<Rightarrow> cwsp_loop dat (dict_append cwsp fname trs) rest)"

definition get_jobs_with_same_cwsp :: "data \<Rightarrow> exn + (string \<times> task list) list" where
  "get_jobs_with_same_cwsp dat = cwsp_loop dat [] (cov_tracers_all dat)"

text \<open>
  A mask name that cannot be confused with the separator of the file name: it has no
  \<open>__\<close> inside and does not end with \<open>_\<close>.
\<close>

definition sep_free :: "string \<Rightarrow> bool" where
  "sep_free m = (\<not> str_contains ''__'' m \<and> \<not> endswith m ''_'')"

text \<open>
  Configurations for examples: six tracers, two of them with a mask name that contains the
  separator, and the two partitions of the covariance tasks given as lists.
\<close>

definition example_tracers :: "string \<rightharpoonup> tracer_cfg" where
  "example_tracers =
     [''A'' \<mapsto> \<lparr> mask_name = ''mA'' \<rparr>, ''B'' \<mapsto> \<lparr> mask_name = ''mB'' \<rparr>,
      ''P'' \<mapsto> \<lparr> mask_name = ''a__b'' \<rparr>, ''Q'' \<mapsto> \<lparr> mask_name = ''c'' \<rparr>,
      ''R'' \<mapsto> \<lparr> mask_name = ''a'' \<rparr>, ''S'' \<mapsto> \<lparr> mask_name = ''b__c'' \<rparr>]"

definition cov_data :: "task list \<Rightarrow> task list \<Rightarrow> data" where
  "cov_data with_wsp without_wsp =
     \<lparr> tracers = example_tracers,
       output_path = ''out'',
       recompute_cls = False, recompute_mcm = False,
       recompute_cov = False, recompute_cmcm = False,
       get_spin = (\<lambda>tr. Some 0),
       get_tracer_bare_name = (\<lambda>tr. tr),
       get_tracers_bare_name_pair = (\<lambda>a b sep. a @ sep @ b),
       get_cl_trs_names = (\<lambda>w. []),
       get_cov_trs_names = (\<lambda>w. if w then with_wsp else without_wsp) \<rparr>"

section \<open>The launchers of \<open>run_cls.py\<close>\<close>

text \<open>
  The command line and what the launchers read from their environment. \<open>args_nc\<close> and
  \<open>args_mem\<close> are the texts that \<open>str.format\<close> gives for the two numbers,
  \<open>args_qjobs\<close> is the answer of \<open>get_queued_jobs()\<close> (empty on another host),
  \<open>args_timestamp\<close> the formatted \<open>datetime.utcnow()\<close>, and \<open>args_days\<close> the text
  \<open>f"{njobs / (60 * 24):.1f}"\<close> of a number of jobs, a floating-point rendering that is
  left open.
\<close>

record args =
  args_INPUT :: string
  args_queue :: string
  args_njobs :: int
  args_nc :: string
  args_mem :: string
  args_onlogin :: bool
  args_skip :: "string list"
  args_fiducial :: bool
  args_remove_cwsp :: bool
  args_nnodes :: int
  args_qjobs :: string
  args_timestamp :: string
  args_days :: "int \<Rightarrow> string"

text \<open>
  The signals that \<open>launch_cov_batches2\<close> consults before it dispatches: the lock file of
  a workspace, the output file of a task, the skip list for a task.
\<close>

datatype signal = LockFile string | OutputFile string | SkipList task

text \<open>
  The world of a launcher: the regular files that exist (what \<open>os.path.isfile\<close> sees),
  the files it has opened for writing with the strings written to each, the commands given
  to \<open>os.system\<close>, and the signals consulted, all in order. A submitted command is
  recorded only: what the job does to the files later is not part of the launcher, so the
  files change during one invocation by the launcher's own writes alone. Directories
  (\<open>os.makedirs\<close>) and the pause after a submission are left out.
\<close>

record launcher =
  existing :: "string set"
  written :: "(string \<times> string list) list"
  submitted :: "string list"
  consulted :: "signal list"

definition os_system :: "string \<Rightarrow> launcher \<Rightarrow> launcher" where
  "os_system cmd s = s\<lparr> submitted := submitted s @ [cmd] \<rparr>"

definition write_file :: "string \<Rightarrow> string list \<Rightarrow> launcher \<Rightarrow> launcher" where
  "write_file name chunks s =
     s\<lparr> existing := insert name (existing s), written := written s @ [(name, chunks)] \<rparr>"

definition consult :: "signal list \<Rightarrow> launcher \<Rightarrow> launcher" where
  "consult sigs s = s\<lparr> consulted := consulted s @ sigs \<rparr>"

text \<open>Decimal text of a Python integer, as an f-string prints it.\<close>

fun str_nat :: "nat \<Rightarrow> string" where
  "str_nat n =
     (if n < 10 then [''0123456789'' ! n]
      else str_nat (n div 10) @ [''0123456789'' ! (n mod 10)])"

declare str_nat.simps [simp del]

definition str_int :: "int \<Rightarrow> string" where
  "str_int i = (if i < 0 then ''-'' @ str_nat (nat (- i)) else str_nat (nat i))"

text \<open>A list slice \<open>xs[i:j]\<close> with Python's treatment of negative and large bounds.\<close>

definition py_slice :: "'a list \<Rightarrow> int \<Rightarrow> int \<Rightarrow> 'a list" where
  "py_slice xs i j =
     (let n = int (length xs);
          lo = (if i < 0 then max (i + n) 0 else min i n);
          hi = (if j < 0 then max (j + n) 0 else min j n)
      in take (nat (hi - lo)) (drop (nat lo) xs))"

definition get_pyexec ::
  "string \<Rightarrow> string \<Rightarrow> string \<Rightarrow> string \<Rightarrow> bool \<Rightarrow> string \<Rightarrow> bool \<Rightarrow> string option \<Rightarrow> string" where
  "get_pyexec comment nc queue mem onlogin outdir batches logfname =
     (let pyexec = (if batches then ''/bin/bash'' else ''/usr/bin/python3'') in
      if \<not> onlogin then
        (let logdir = path_join outdir ''log'';
             logf = (case logfname of
                       None \<Rightarrow> path_join logdir (comment @ ''.log'')
                     | Some f \<Rightarrow> f)
         in ''addqueue -o '' @ logf @ '' -c '' @ comment @ '' -n 1x'' @ nc
              @ '' -s -q '' @ queue @ '' -m '' @ mem @ '' '' @ pyexec)
      else pyexec)"

definition task_trs :: "task \<Rightarrow> string list" where
  "task_trs trs = (case trs of (t1, t2, t3, t4) \<Rightarrow> [t1, t2, t3, t4])"

text \<open>\<open>'cov_{}_{}_{}_{}'.format(*trs)\<close>\<close>

definition cov_comment :: "task \<Rightarrow> string" where
  "cov_comment trs =
     (case trs of (t1, t2, t3, t4) \<Rightarrow> ''cov_'' @ t1 @ ''_'' @ t2 @ ''_'' @ t3 @ ''_'' @ t4)"

subsection \<open>\<open>launch_cov\<close>\<close>




subsection \<open>\<open>launch_cls\<close>\<close>









definition example_args :: args where
  "example_args =
     \<lparr> args_INPUT = ''in.yml'', args_queue = ''berg'', args_njobs = 1,
       args_nc = ''28'', args_mem = ''7.0'', args_onlogin = True, args_skip = [],
       args_fiducial = False, args_remove_cwsp = True, args_nnodes = 1,
       args_qjobs = [], args_timestamp = ''T'', args_days = (\<lambda>n. ''0.0'') \<rparr>"

definition empty_launcher :: launcher where
  "empty_launcher = \<lparr> existing = {}, written = [], submitted = [], consulted = [] \<rparr>"


subsection \<open>\<open>launch_cov_batches2\<close>\<close>

text \<open>The command of one covariance in a batch script, a line of its own.\<close>

definition cov_command :: "string \<Rightarrow> task \<Rightarrow> string" where
  "cov_command inp trs =
     (case trs of (t1, t2, t3, t4) \<Rightarrow>
        ''/usr/bin/python3 -m xcell.cls.cov '' @ inp @ '' '' @ t1 @ '' '' @ t2
          @ '' '' @ t3 @ '' '' @ t4 @ ''\<newline>'')"

definition cov_output :: "data \<Rightarrow> task \<Rightarrow> string" where
  "cov_output dat trs = path_join (output_path dat) (''cov/'' @ cov_comment trs @ ''.npz'')"

text \<open>
  The inner loop that finds the covariances to be computed, \<open>covs_tbc\<close>, for the tasks of
  one group. The test is \<open>(isfile(fname) and not recompute) or check_skip(...)\<close>: the
  output file is looked at first, the skip list only when the first test has not decided.
  The result is the signals consulted, in order, and \<open>covs_tbc\<close>.
\<close>

fun covs_tbc_loop ::
  "data \<Rightarrow> args \<Rightarrow> string set \<Rightarrow> task list \<Rightarrow> signal list \<times> string list" where
  "covs_tbc_loop dat a fs [] = ([], [])"
| "covs_tbc_loop dat a fs (trs # rest) =
     (let fname = cov_output dat trs;
          recompute = (recompute_cov dat \<or> recompute_cmcm dat) in
      case covs_tbc_loop dat a fs rest of (sigs, covs_tbc) \<Rightarrow>
        if fname \<in> fs \<and> \<not> recompute then (OutputFile fname # sigs, covs_tbc)
        else if check_skip dat (args_skip a) (task_trs trs)
          then (OutputFile fname # SkipList trs # sigs, covs_tbc)
          else (OutputFile fname # SkipList trs # sigs,
                cov_command (args_INPUT a) trs # covs_tbc))"

definition create_lock_file :: "string \<Rightarrow> launcher \<Rightarrow> launcher" where
  "create_lock_file fname s = write_file (fname @ ''.lock'') [[]] s"

text \<open>
  The strings written to the script of one group, in order. It is written only for a
  list \<open>covs_tbc\<close> that is not empty, whose last element the variable \<open>covi\<close> holds after
  the loop.
\<close>

definition group_script :: "string \<Rightarrow> string list \<Rightarrow> bool \<Rightarrow> string list" where
  "group_script cw covs_tbc remove_cwsp =
     [''#!/bin/bash\<newline>'']
     @ concat (map (\<lambda>covi. [''echo Running '' @ covi @ ''\<newline>'', covi]) covs_tbc)
     @ [''echo Removing lock file: '' @ cw @ ''.lock\<newline>'',
        ''rm '' @ cw @ ''.lock\<newline>'']
     @ (if remove_cwsp
        then [''echo Removing '' @ cw @ ''\<newline>'', ''rm '' @ cw @ ''\<newline>'']
        else [])
     @ [''echo Finished running '' @ last covs_tbc @ ''\<newline>\<newline>'']"

text \<open>
  The body of the first loop for one group, after the test of the cap: the lock file
  first, then the tasks, then the lock and the script. The state is the counter \<open>c\<close>, the
  list \<open>sh_tbc\<close> and the world.
\<close>

definition group_body ::
  "data \<Rightarrow> args \<Rightarrow> string \<times> task list \<Rightarrow> int \<times> string list \<times> launcher
     \<Rightarrow> int \<times> string list \<times> launcher" where
  "group_body dat a grp st =
     (case grp of (cw, trs_list) \<Rightarrow>
      case st of (c, sh_tbc, s) \<Rightarrow>
        if cw @ ''.lock'' \<in> existing s
        then (c, sh_tbc, consult [LockFile (cw @ ''.lock'')] s)
        else
          (case covs_tbc_loop dat a (existing s) trs_list of (sigs, covs_tbc) \<Rightarrow>
             let s1 = consult (LockFile (cw @ ''.lock'') # sigs) s in
             if length covs_tbc = 0 then (c, sh_tbc, s1)
             else
               (let s2 = create_lock_file cw s1;
                    sh_name = path_join (path_join (output_path dat) ''run_batches'')
                                (basename cw @ ''.sh'');
                    s3 = write_file sh_name
                           (group_script cw covs_tbc (args_remove_cwsp a)) s2
                in (c + 1, sh_tbc @ [sh_name], s3))))"

fun batches_loop ::
  "data \<Rightarrow> args \<Rightarrow> (string \<times> task list) list \<Rightarrow> int \<times> string list \<times> launcher
     \<Rightarrow> int \<times> string list \<times> launcher" where
  "batches_loop dat a [] st = st"
| "batches_loop dat a (grp # rest) (c, sh_tbc, s) =
     (if c \<ge> args_njobs a * args_nnodes a then (c, sh_tbc, s)
      else batches_loop dat a rest (group_body dat a grp (c, sh_tbc, s)))"

text \<open>The strings written to the script of one node, for the inner scripts it runs.\<close>

definition node_script :: "string list \<Rightarrow> string list" where
  "node_script shs =
     ''#!/bin/bash\<newline>''
     # concat (map (\<lambda>shi. let command = ''/bin/bash '' @ shi in
                      [''echo Running '' @ command @ ''\<newline>'',
                       command @ ''\<newline>'',
                       ''echo Finished '' @ command @ ''\<newline>\<newline>'']) shs)"

text \<open>
  The second loop, over the nodes, with the variable \<open>njobs\<close> that the loop changes. The
  loop runs for a positive \<open>nnodes\<close> only, and \<open>n_total_jobs\<close> is a length, so the test
  \<open>njobs > n_total_jobs / nnodes\<close> is \<open>njobs * nnodes > n_total_jobs\<close> and
  \<open>int(n_total_jobs / nnodes + 1)\<close> is \<open>n_total_jobs div nnodes + 1\<close> (the division of
  the source is in floating point, exact for the sizes that occur).
\<close>

fun nodes_loop ::
  "data \<Rightarrow> args \<Rightarrow> string list \<Rightarrow> int \<Rightarrow> int list \<Rightarrow> int \<times> launcher \<Rightarrow> int \<times> launcher" where
  "nodes_loop dat a sh_tbc n_total_jobs [] (njobs, s) = (njobs, s)"
| "nodes_loop dat a sh_tbc n_total_jobs (nodei # rest) (njobs, s) =
     (let outdir = output_path dat;
          njobs1 = (if njobs * args_nnodes a > n_total_jobs
                    then n_total_jobs div args_nnodes a + 1 else njobs);
          name = ''batch'' @ str_int nodei @ ''-'' @ str_int njobs1 @ ''_'' @ args_timestamp a;
          comment = name @ [CHR 0x5C] @ ''(~'' @ args_days a njobs1 @ ''days'' @ [CHR 0x5C] @ '')'';
          sh_name = path_join (path_join outdir ''run_batches'') (name @ ''.sh'');
          logfname = path_join (path_join outdir ''log'') (name @ ''.sh.log'');
          s1 = write_file sh_name
                 (node_script (py_slice sh_tbc nodei ((nodei + 1) * njobs1))) s;
          pyexec = get_pyexec comment (args_nc a) (args_queue a) (args_mem a)
                     (args_onlogin a) outdir True (Some logfname)
      in nodes_loop dat a sh_tbc n_total_jobs rest
           (njobs1, os_system (pyexec @ '' '' @ sh_name) s1))"

definition launch_cov_batches2 :: "data \<Rightarrow> args \<Rightarrow> launcher \<Rightarrow> exn + launcher" where
  "launch_cov_batches2 dat a s =
     (case get_jobs_with_same_cwsp dat of
        Inl e \<Rightarrow> Inl e
      | Inr cwsp \<Rightarrow>
          (case batches_loop dat a cwsp (0, [], s) of (c, sh_tbc, s1) \<Rightarrow>
             Inr (snd (nodes_loop dat a sh_tbc (int (length cwsp))
                         [0..args_nnodes a - 1] (args_njobs a, s1)))))"


text \<open>
  Inputs for examples of the batched launcher: three tasks with three different mask
  tuples, with two jobs for each of two nodes; and worlds in which the lock file of a workspace and the output
  file of its task exist, or the output file alone.
\<close>

definition overlap_data :: data where
  "overlap_data =
     cov_data [(''A'', ''A'', ''A'', ''A''), (''A'', ''A'', ''A'', ''B''), (''A'', ''A'', ''B'', ''B'')] []"

definition overlap_args :: args where
  "overlap_args = example_args\<lparr> args_njobs := 2, args_nnodes := 2, args_remove_cwsp := False \<rparr>"



section \<open>Properties of the resource estimator\<close>

lemma mem_loop_acc:
  "mem_loop d dat (mem + k) trs = (case mem_loop d dat mem trs of Inl e \<Rightarrow> Inl e | Inr m \<Rightarrow> Inr (m + k))"
proof (induction trs arbitrary: mem)
  case Nil
  show ?case by simp
next
  case (Cons tr trs)
  have step: "mem_loop d dat (mem + k + m) trs =
      (case mem_loop d dat (mem + m) trs of Inl e \<Rightarrow> Inl e | Inr m \<Rightarrow> Inr (m + k))" for m
  proof -
    have "mem + k + m = mem + m + k" by simp
    then show ?thesis by (simp only: Cons.IH)
  qed
  show ?case
    by (simp add: step split: option.splits)
qed

lemma mem_loop_append:
  "mem_loop d dat mem (xs @ ys) =
     (case mem_loop d dat mem xs of
        Inl e \<Rightarrow> Inl e
      | Inr m \<Rightarrow> mem_loop d dat m ys)"
  by (induction xs arbitrary: mem) (simp_all split: option.splits)

lemma mem_loop_add:
  assumes "mem_loop d dat 0 xs = Inr a" and "mem_loop d dat 0 ys = Inr b"
  shows "mem_loop d dat 0 (xs @ ys) = Inr (a + b)"
proof -
  have "mem_loop d dat a ys =
      (case mem_loop d dat 0 ys of Inl e \<Rightarrow> Inl e | Inr m \<Rightarrow> Inr (m + a))"
    using mem_loop_acc [of d dat 0 a ys] by simp
  with assms show ?thesis
    by (simp add: mem_loop_append)
qed

lemma mem_loop_mono:
  assumes le: "\<And>s m. d1 s = Some m \<Longrightarrow> \<exists>m'. d2 s = Some m' \<and> m \<le> m'"
  shows "mem_loop d1 dat m1 trs = Inr a \<Longrightarrow> m1 \<le> m2 \<Longrightarrow>
         \<exists>b. mem_loop d2 dat m2 trs = Inr b \<and> a \<le> b"
proof (induction trs arbitrary: m1 m2)
  case Nil
  then show ?case by simp
next
  case (Cons tr trs)
  from Cons.prems(1) obtain s m where s: "get_spin dat tr = Some s" and m: "d1 s = Some m"
    and rest: "mem_loop d1 dat (m1 + m) trs = Inr a"
    by (auto split: option.splits)
  from le [OF m] obtain m' where m': "d2 s = Some m'" and "m \<le> m'" by blast
  with Cons.prems(2) have "m1 + m \<le> m2 + m'" by simp
  from Cons.IH [OF rest this] s m' show ?case by simp
qed

text \<open>
  C9. The estimate is additive over tracers for a fixed mode: when the estimates of two
  tracer lists are defined, the estimate of their concatenation is the sum (in particular
  for two single tracers \<open>[A]\<close> and \<open>[B]\<close> and the list \<open>[A, B]\<close>). For the same tracers
  the \<open>cls\<close> total is at most the \<open>cov\<close> total, each per-spin cost of the \<open>cls\<close> table
  being at most the one of the \<open>cov\<close> table.
\<close>

theorem get_mem_additive_and_cls_le_cov:
  "(get_mem dat xs compute = Inr a \<and> get_mem dat ys compute = Inr b
      \<longrightarrow> get_mem dat (xs @ ys) compute = Inr (a + b))
   \<and> (get_mem dat [A] compute = Inr a \<and> get_mem dat [B] compute = Inr b
      \<longrightarrow> get_mem dat [A, B] compute = Inr (a + b))
   \<and> (get_mem dat trs ''cls'' = Inr m
      \<longrightarrow> (\<exists>m'. get_mem dat trs ''cov'' = Inr m' \<and> m \<le> m'))
   \<and> (\<forall>dcls dcov s c. mem_table ''cls'' = Inr dcls \<and> mem_table ''cov'' = Inr dcov
        \<and> dcls s = Some c \<longrightarrow> (\<exists>c'. dcov s = Some c' \<and> c \<le> c'))"
proof -
  have add: "get_mem dat us compute = Inr a \<Longrightarrow> get_mem dat vs compute = Inr b
      \<Longrightarrow> get_mem dat (us @ vs) compute = Inr (a + b)" for us vs
    by (cases "mem_table compute") (simp_all add: get_mem_def mem_loop_add)
  have tab: "\<exists>c'. [0 \<mapsto> 16, 2 \<mapsto> (47::int)] s = Some c' \<and> c \<le> c'"
    if "[0 \<mapsto> 16, 2 \<mapsto> (25::int)] s = Some c" for s :: int and c
    using that by (auto split: if_splits)
  have mono: "\<exists>m'. get_mem dat trs ''cov'' = Inr m' \<and> m \<le> m'"
    if "get_mem dat trs ''cls'' = Inr m"
  proof -
    from that have "mem_loop [0 \<mapsto> 16, 2 \<mapsto> 25] dat 0 trs = Inr m"
      by (simp add: get_mem_def mem_table_def)
    from mem_loop_mono [where ?d2.0 = "[0 \<mapsto> 16, 2 \<mapsto> 47]", OF tab this]
    show ?thesis by (simp add: get_mem_def mem_table_def)
  qed
  have "get_mem dat [A] compute = Inr a \<Longrightarrow> get_mem dat [B] compute = Inr b
      \<Longrightarrow> get_mem dat [A, B] compute = Inr (a + b)"
    using add [of "[A]" "[B]"] by simp
  with add mono tab show ?thesis
    by (simp add: mem_table_def)
qed

theorem get_mem_additive_and_cls_le_cov_witness:
  "get_mem example_data ([''A__0''] @ [''B__2'']) ''cls'' = Inr (16 + 25)
   \<and> get_mem example_data [''A__0'', ''B__2''] ''cls'' = Inr 41
   \<and> (\<exists>m'. get_mem example_data [''A__0'', ''B__2''] ''cov'' = Inr m' \<and> 41 \<le> m')
   \<and> get_mem example_data [''A__0'', ''B__2''] ''cov'' = Inr 63"
proof -
  have a: "get_mem example_data [''A__0''] ''cls'' = Inr 16"
    by (simp add: get_mem_def mem_table_def example_data_def)
  have b: "get_mem example_data [''B__2''] ''cls'' = Inr 25"
    by (simp add: get_mem_def mem_table_def example_data_def)
  have c: "get_mem example_data [''A__0'', ''B__2''] ''cov'' = Inr 63"
    by (simp add: get_mem_def mem_table_def example_data_def)
  note th = get_mem_additive_and_cls_le_cov
    [of example_data "[''A__0'']" "''cls''" 16 "[''B__2'']" 25 "''A__0''" "''B__2''"
        "[''A__0'', ''B__2'']" 41]
  from th a b have app: "get_mem example_data ([''A__0''] @ [''B__2'']) ''cls'' = Inr (16 + 25)"
    by blast
  from th a b have ab: "get_mem example_data [''A__0'', ''B__2''] ''cls'' = Inr 41"
    by simp
  from th ab have "\<exists>m'. get_mem example_data [''A__0'', ''B__2''] ''cov'' = Inr m' \<and> 41 \<le> m'"
    by blast
  with app ab c show ?thesis by blast
qed

section \<open>Properties of the skip list\<close>

text \<open>
  C8. A task is excluded if and only if one of its tracers is in the skip list, by its
  full identifier or by its bare name. So a task made of the tracer \<open>SURVEY__0\<close>, whose
  bare name is \<open>SURVEY\<close>, is excluded exactly when \<open>SURVEY__0\<close> or \<open>SURVEY\<close> is in the
  list, and a task with no such tracer is not excluded.
\<close>

theorem check_skip_iff:
  "(check_skip dat skip trs \<longleftrightarrow>
      (\<exists>tr \<in> set trs. tr \<in> set skip \<or> get_tracer_bare_name dat tr \<in> set skip))
   \<and> (get_tracer_bare_name dat ''SURVEY__0'' = ''SURVEY'' \<longrightarrow>
        (check_skip dat skip [''SURVEY__0''] \<longleftrightarrow>
           ''SURVEY__0'' \<in> set skip \<or> ''SURVEY'' \<in> set skip))"
proof -
  have "check_skip dat skip ts \<longleftrightarrow>
      (\<exists>tr \<in> set ts. tr \<in> set skip \<or> get_tracer_bare_name dat tr \<in> set skip)" for ts
    by (induction ts) auto
  then show ?thesis by simp
qed

theorem check_skip_iff_witness:
  "check_skip example_data [''A''] [''B__2'', ''A__0'']
   \<and> check_skip example_data [''B__2''] [''A__0'', ''B__2'']
   \<and> \<not> check_skip example_data [''C'', ''A__1''] [''A__0'', ''B__2'']
   \<and> check_skip example_data [''SURVEY''] [''SURVEY__0'']
   \<and> check_skip example_data [''SURVEY__0''] [''SURVEY__0'']
   \<and> \<not> check_skip example_data [''SURVEY__1'', ''A''] [''SURVEY__0'']"
proof -
  have bare: "get_tracer_bare_name example_data = bare_of"
    by (simp add: example_data_def)
  have survey: "get_tracer_bare_name example_data ''SURVEY__0'' = ''SURVEY''"
    by (simp add: bare bare_of_def)
  from check_skip_iff [of example_data "[''A'']" "[''B__2'', ''A__0'']"]
    check_skip_iff [of example_data "[''B__2'']" "[''A__0'', ''B__2'']"]
    check_skip_iff [of example_data "[''C'', ''A__1'']" "[''A__0'', ''B__2'']"]
  have first: "check_skip example_data [''A''] [''B__2'', ''A__0'']
      \<and> check_skip example_data [''B__2''] [''A__0'', ''B__2'']
      \<and> \<not> check_skip example_data [''C'', ''A__1''] [''A__0'', ''B__2'']"
    by (simp add: bare bare_of_def)
  from check_skip_iff [of example_data "[''SURVEY'']" "[''SURVEY__0'']"]
    check_skip_iff [of example_data "[''SURVEY__0'']" "[''SURVEY__0'']"]
    check_skip_iff [of example_data "[''SURVEY__1'', ''A'']" "[''SURVEY__0'']"]
    survey
  have "check_skip example_data [''SURVEY''] [''SURVEY__0'']
      \<and> check_skip example_data [''SURVEY__0''] [''SURVEY__0'']
      \<and> \<not> check_skip example_data [''SURVEY__1'', ''A''] [''SURVEY__0'']"
    by simp
  with first show ?thesis by blast
qed

section \<open>Properties of the workspace files\<close>

text \<open>
  C10. When a file exists at the target path, \<open>save_wsp\<close> returns at once: no exception,
  no call of the underlying write (the trace is unchanged), and the files are as they
  were, whatever the write would have done.
\<close>

theorem save_wsp_existing_file:
  "fname \<in> files w \<Longrightarrow> save_wsp write_to fname w = (None, w)"
  by (simp add: save_wsp_def)

theorem save_wsp_existing_file_witness:
  "save_wsp broken_write ''cw.fits'' \<lparr> files = {''cw.fits''}, trace = [] \<rparr>
     = (None, \<lparr> files = {''cw.fits''}, trace = [] \<rparr>)"
  using save_wsp_existing_file
    [of "''cw.fits''" "\<lparr> files = {''cw.fits''}, trace = [] \<rparr>" broken_write]
  by simp




section \<open>Properties of the workspace grouping\<close>


lemma startswith_iff: "startswith s p \<longleftrightarrow> (\<exists>v. s = p @ v)"
  by (induction s p rule: startswith.induct) auto

lemma str_contains_iff: "str_contains sub s \<longleftrightarrow> (\<exists>u v. s = u @ sub @ v)"
proof (induction s)
  case Nil
  show ?case by auto
next
  case (Cons c cs)
  have "(\<exists>u v. c # cs = u @ sub @ v) \<longleftrightarrow>
        (\<exists>v. c # cs = sub @ v) \<or> (\<exists>u v. cs = u @ sub @ v)"
  proof
    assume "\<exists>u v. c # cs = u @ sub @ v"
    then obtain u v where uv: "c # cs = u @ sub @ v" by blast
    show "(\<exists>v. c # cs = sub @ v) \<or> (\<exists>u v. cs = u @ sub @ v)"
    proof (cases u)
      case Nil
      with uv show ?thesis by auto
    next
      case (Cons a u')
      with uv have "cs = u' @ sub @ v" by simp
      then show ?thesis by blast
    qed
  next
    assume "(\<exists>v. c # cs = sub @ v) \<or> (\<exists>u v. cs = u @ sub @ v)"
    then show "\<exists>u v. c # cs = u @ sub @ v"
    proof
      assume "\<exists>v. c # cs = sub @ v"
      then obtain v where "c # cs = [] @ sub @ v" by auto
      then show ?thesis by blast
    next
      assume "\<exists>u v. cs = u @ sub @ v"
      then obtain u v where "c # cs = (c # u) @ sub @ v" by auto
      then show ?thesis by blast
    qed
  qed
  with Cons show ?case by (simp add: startswith_iff)
qed

lemma endswith_iff: "endswith s p \<longleftrightarrow> (\<exists>u. s = u @ p)"
proof -
  have "(\<exists>v. rev s = rev p @ v) \<longleftrightarrow> (\<exists>u. s = u @ p)"
  proof
    assume "\<exists>v. rev s = rev p @ v"
    then obtain v where "rev s = rev p @ v" by blast
    then have "rev (rev s) = rev (rev p @ v)" by simp
    then have "s = rev v @ p" by simp
    then show "\<exists>u. s = u @ p" by blast
  next
    assume "\<exists>u. s = u @ p"
    then obtain u where "s = u @ p" by blast
    then have "rev s = rev p @ rev u" by simp
    then show "\<exists>v. rev s = rev p @ v" by blast
  qed
  then show ?thesis by (simp add: endswith_def startswith_iff)
qed

lemma sep_free_residue:
  assumes a: "sep_free a" and ab: "a = b @ us" and eq: "us @ ''__'' @ x = ''__'' @ y"
  shows "us = []"
proof (cases us)
  case Nil
  then show ?thesis .
next
  case (Cons c1 r)
  with eq have c1: "c1 = CHR ''_''" by simp
  show ?thesis
  proof (cases r)
    case Nil
    with Cons c1 ab have "a = b @ ''_''" by simp
    then have "endswith a ''_''" by (auto simp: endswith_iff)
    with a show ?thesis by (simp add: sep_free_def)
  next
    case (Cons c2 r')
    with \<open>us = c1 # r\<close> eq have "c2 = CHR ''_''" by simp
    with Cons \<open>us = c1 # r\<close> c1 ab have "a = b @ ''__'' @ r'" by simp
    then have "str_contains ''__'' a" unfolding str_contains_iff by blast
    with a show ?thesis by (simp add: sep_free_def)
  qed
qed

lemma sep_unique:
  assumes a: "sep_free a" and b: "sep_free b" and eq: "a @ ''__'' @ x = b @ ''__'' @ y"
  shows "a = b \<and> x = y"
proof -
  from eq obtain us where
    "(a = b @ us \<and> us @ ''__'' @ x = ''__'' @ y) \<or> (a @ us = b \<and> ''__'' @ x = us @ ''__'' @ y)"
    unfolding append_eq_append_conv2 by blast
  then have "us = []"
  proof
    assume "a = b @ us \<and> us @ ''__'' @ x = ''__'' @ y"
    then show ?thesis using sep_free_residue [OF a] by blast
  next
    assume h: "a @ us = b \<and> ''__'' @ x = us @ ''__'' @ y"
    then have "b = a @ us" and "us @ ''__'' @ y = ''__'' @ x" by simp_all
    then show ?thesis using sep_free_residue [OF b] by blast
  qed
  with \<open>(a = b @ us \<and> us @ ''__'' @ x = ''__'' @ y) \<or> (a @ us = b \<and> ''__'' @ x = us @ ''__'' @ y)\<close>
  have "a = b" by auto
  with eq show ?thesis by simp
qed

lemma path_join_relative:
  "\<not> startswith b ''/'' \<Longrightarrow> \<exists>pre. \<forall>b'. \<not> startswith b' ''/'' \<longrightarrow> path_join a b' = pre @ b'"
  by (auto simp: path_join_def)

lemma path_join_inject:
  assumes "\<not> startswith b ''/''" and "\<not> startswith b' ''/''"
  shows "path_join a b = path_join a b' \<longleftrightarrow> b = b'"
  using assms by (auto simp: path_join_def)

lemma cwsp_name_relative: "\<not> startswith (cwsp_name m) ''/''"
  by (cases m) (simp add: cwsp_name_def)

lemma cwsp_name_inject:
  assumes "sep_free m1" "sep_free m2" "sep_free m3" "sep_free n1" "sep_free n2" "sep_free n3"
    and eq: "cwsp_name (m1, m2, m3, m4) = cwsp_name (n1, n2, n3, n4)"
  shows "(m1, m2, m3, m4) = (n1, n2, n3, n4)"
proof -
  from eq have e1: "m1 @ ''__'' @ (m2 @ ''__'' @ m3 @ ''__'' @ m4 @ ''.fits'')
      = n1 @ ''__'' @ (n2 @ ''__'' @ n3 @ ''__'' @ n4 @ ''.fits'')"
    by (simp add: cwsp_name_def)
  from sep_unique [OF assms(1) assms(4) e1]
  have m1: "m1 = n1" and e2: "m2 @ ''__'' @ (m3 @ ''__'' @ m4 @ ''.fits'')
      = n2 @ ''__'' @ (n3 @ ''__'' @ n4 @ ''.fits'')" by simp_all
  from sep_unique [OF assms(2) assms(5) e2]
  have m2: "m2 = n2" and e3: "m3 @ ''__'' @ (m4 @ ''.fits'') = n3 @ ''__'' @ (n4 @ ''.fits'')"
    by simp_all
  from sep_unique [OF assms(3) assms(6) e3]
  have "m3 = n3" and "m4 = n4" by simp_all
  with m1 m2 show ?thesis by simp
qed

lemma sorted_distinct_adj:
  "sorted xs \<Longrightarrow> distinct_adj xs \<Longrightarrow> distinct (xs :: 'a::linorder list)"
proof (induction xs rule: induct_list012)
  case 1
  show ?case by simp
next
  case (2 x)
  show ?case by simp
next
  case (3 x y zs)
  from "3.prems" have "x < y" by (auto simp: distinct_adj_Cons)
  moreover from "3.prems" have "\<forall>z \<in> set (y # zs). y \<le> z" by auto
  ultimately have "x \<notin> set (y # zs)" by fastforce
  moreover from "3.prems" "3.IH"(2) have "distinct (y # zs)" by (simp add: distinct_adj_Cons)
  ultimately show ?case by simp
qed

lemma unique_rows_props:
  "set (unique_rows xs) = set xs" "distinct (unique_rows xs)" "sorted (unique_rows xs)"
  by (simp_all add: unique_rows_def sorted_distinct_adj sorted_remdups_adj)


lemma map_of_dict_append:
  "map_of (dict_append d k v) =
     (map_of d)(k \<mapsto> (case map_of d k of None \<Rightarrow> [v] | Some vs \<Rightarrow> vs @ [v]))"
  by (induction d k v rule: dict_append.induct) (auto simp: fun_eq_iff)

lemma keys_dict_append:
  "map fst (dict_append d k v) =
     (if k \<in> set (map fst d) then map fst d else map fst d @ [k])"
  by (induction d k v rule: dict_append.induct) auto

lemma distinct_dict_append:
  "distinct (map fst d) \<Longrightarrow> distinct (map fst (dict_append d k v))"
  by (simp add: keys_dict_append)

lemma cwsp_loop_map_of:
  "cwsp_loop dat d ts = Inr d' \<Longrightarrow>
   map_of d' k =
     (case map_of d k of
        None \<Rightarrow> (if filter (\<lambda>t. cwsp_path dat t = Inr k) ts = [] then None
                 else Some (filter (\<lambda>t. cwsp_path dat t = Inr k) ts))
      | Some vs \<Rightarrow> Some (vs @ filter (\<lambda>t. cwsp_path dat t = Inr k) ts))"
proof (induction ts arbitrary: d)
  case Nil
  then show ?case by (simp split: option.splits)
next
  case (Cons t ts)
  from Cons.prems obtain f where f: "cwsp_path dat t = Inr f"
    and rest: "cwsp_loop dat (dict_append d f t) ts = Inr d'"
    by (auto split: sum.splits)
  show ?case
    unfolding Cons.IH [OF rest]
    by (simp add: map_of_dict_append f split: option.splits)
qed

lemma cwsp_loop_distinct:
  "cwsp_loop dat d ts = Inr d' \<Longrightarrow> distinct (map fst d) \<Longrightarrow> distinct (map fst d')"
proof (induction ts arbitrary: d)
  case Nil
  then show ?case by simp
next
  case (Cons t ts)
  from Cons.prems(1) obtain f where "cwsp_loop dat (dict_append d f t) ts = Inr d'"
    by (auto split: sum.splits)
  from Cons.IH [OF this] Cons.prems(2) show ?case
    by (simp add: distinct_dict_append)
qed

lemma cwsp_loop_defined:
  "cwsp_loop dat d ts = Inr d' \<Longrightarrow> t \<in> set ts \<Longrightarrow> \<exists>p. cwsp_path dat t = Inr p"
  by (induction ts arbitrary: d) (auto split: sum.splits)

lemma get_jobs_groups:
  assumes "get_jobs_with_same_cwsp dat = Inr cwsp"
  shows "distinct (map fst cwsp)"
    and "(fname, ts) \<in> set cwsp \<longleftrightarrow>
         ts \<noteq> [] \<and> ts = filter (\<lambda>t. cwsp_path dat t = Inr fname) (cov_tracers_all dat)"
proof -
  from assms have loop: "cwsp_loop dat [] (cov_tracers_all dat) = Inr cwsp"
    by (simp add: get_jobs_with_same_cwsp_def)
  from cwsp_loop_distinct [OF loop] show d: "distinct (map fst cwsp)" by simp
  have "(fname, ts) \<in> set cwsp \<longleftrightarrow> map_of cwsp fname = Some ts"
    using d by simp
  also have "\<dots> \<longleftrightarrow>
      ts \<noteq> [] \<and> ts = filter (\<lambda>t. cwsp_path dat t = Inr fname) (cov_tracers_all dat)"
    unfolding cwsp_loop_map_of [OF loop] by auto
  finally show "(fname, ts) \<in> set cwsp \<longleftrightarrow>
      ts \<noteq> [] \<and> ts = filter (\<lambda>t. cwsp_path dat t = Inr fname) (cov_tracers_all dat)" .
qed

text \<open>
  C3, as the claim states it: tasks with a differing mask would receive a different
  path. The tracers \<open>P\<close>, \<open>Q\<close> have the masks \<open>a__b\<close>, \<open>c\<close> and the tracers \<open>R\<close>,
  \<open>S\<close> the masks \<open>a\<close>, \<open>b__c\<close>: the two tasks below differ in their mask names and
  receive the same path, and so the same group.
\<close>

theorem cwsp_path_collision_counterexample:
  "masks_of (cov_data [] []) (''P'', ''Q'', ''A'', ''B'') = Inr (''a__b'', ''c'', ''mA'', ''mB'')
   \<and> masks_of (cov_data [] []) (''R'', ''S'', ''A'', ''B'') = Inr (''a'', ''b__c'', ''mA'', ''mB'')
   \<and> cwsp_path (cov_data [] []) (''P'', ''Q'', ''A'', ''B'')
       = Inr ''out/cov/cw__a__b__c__mA__mB.fits''
   \<and> cwsp_path (cov_data [] []) (''R'', ''S'', ''A'', ''B'')
       = Inr ''out/cov/cw__a__b__c__mA__mB.fits''
   \<and> get_jobs_with_same_cwsp
         (cov_data [(''P'', ''Q'', ''A'', ''B'')] [(''R'', ''S'', ''A'', ''B'')])
       = Inr [(''out/cov/cw__a__b__c__mA__mB.fits'',
               [(''P'', ''Q'', ''A'', ''B''), (''R'', ''S'', ''A'', ''B'')])]"
  by (simp add: get_jobs_with_same_cwsp_def cov_tracers_all_def unique_rows_def
      cov_data_def cwsp_path_def mask_of_def example_tracers_def cwsp_name_def
      path_join_def endswith_def)

text \<open>
  C3, amended. For two covariance tasks whose tracers are configured, the path is
  \<open>output/cov/cw__{mask1}__{mask2}__{mask3}__{mask4}.fits\<close> with the mask names in task
  order; identical mask names give the same path; and when the first three mask names of
  both tasks have no \<open>__\<close> inside and do not end with \<open>_\<close>, the paths are equal if and
  only if the four mask names are identical. (Without that condition on the names two
  different mask tuples can give one path.)
\<close>

theorem cwsp_path_same_iff_masks:
  "masks_of dat t = Inr (m1, m2, m3, m4) \<and> masks_of dat t' = Inr (n1, n2, n3, n4) \<longrightarrow>
     cwsp_path dat t =
       Inr (path_join (output_path dat)
             (''cov/cw__'' @ m1 @ ''__'' @ m2 @ ''__'' @ m3 @ ''__'' @ m4 @ ''.fits''))
     \<and> ((m1, m2, m3, m4) = (n1, n2, n3, n4) \<longrightarrow> cwsp_path dat t = cwsp_path dat t')
     \<and> (sep_free m1 \<and> sep_free m2 \<and> sep_free m3
        \<and> sep_free n1 \<and> sep_free n2 \<and> sep_free n3 \<longrightarrow>
          (cwsp_path dat t = cwsp_path dat t' \<longleftrightarrow> (m1, m2, m3, m4) = (n1, n2, n3, n4)))"
proof (intro impI, elim conjE)
  assume m: "masks_of dat t = Inr (m1, m2, m3, m4)"
    and m': "masks_of dat t' = Inr (n1, n2, n3, n4)"
  have inj: "(m1, m2, m3, m4) = (n1, n2, n3, n4)"
    if "sep_free m1" "sep_free m2" "sep_free m3" "sep_free n1" "sep_free n2" "sep_free n3"
      and "cwsp_path dat t = cwsp_path dat t'"
  proof -
    from that(7) m m' have "cwsp_name (m1, m2, m3, m4) = cwsp_name (n1, n2, n3, n4)"
      by (simp add: cwsp_path_def path_join_inject cwsp_name_relative)
    with that(1-6) show ?thesis
      by (rule cwsp_name_inject)
  qed
  have same: "cwsp_path dat t = cwsp_path dat t'" if "(m1, m2, m3, m4) = (n1, n2, n3, n4)"
    using that m m' by (simp add: cwsp_path_def)
  have pat: "cwsp_path dat t =
       Inr (path_join (output_path dat)
             (''cov/cw__'' @ m1 @ ''__'' @ m2 @ ''__'' @ m3 @ ''__'' @ m4 @ ''.fits''))"
    using m by (simp add: cwsp_path_def cwsp_name_def)
  from pat same inj show "cwsp_path dat t =
       Inr (path_join (output_path dat)
             (''cov/cw__'' @ m1 @ ''__'' @ m2 @ ''__'' @ m3 @ ''__'' @ m4 @ ''.fits''))
     \<and> ((m1, m2, m3, m4) = (n1, n2, n3, n4) \<longrightarrow> cwsp_path dat t = cwsp_path dat t')
     \<and> (sep_free m1 \<and> sep_free m2 \<and> sep_free m3
        \<and> sep_free n1 \<and> sep_free n2 \<and> sep_free n3 \<longrightarrow>
          (cwsp_path dat t = cwsp_path dat t' \<longleftrightarrow> (m1, m2, m3, m4) = (n1, n2, n3, n4)))"
    by blast
qed

theorem cwsp_path_same_iff_masks_witness:
  "cwsp_path (cov_data [] []) (''A'', ''B'', ''A'', ''B'') = Inr ''out/cov/cw__mA__mB__mA__mB.fits''
   \<and> cwsp_path (cov_data [] []) (''A'', ''B'', ''A'', ''B'')
       \<noteq> cwsp_path (cov_data [] []) (''B'', ''A'', ''B'', ''A'')"
proof -
  have a: "masks_of (cov_data [] []) (''A'', ''B'', ''A'', ''B'') = Inr (''mA'', ''mB'', ''mA'', ''mB'')"
    by (simp add: cov_data_def mask_of_def example_tracers_def)
  have b: "masks_of (cov_data [] []) (''B'', ''A'', ''B'', ''A'') = Inr (''mB'', ''mA'', ''mB'', ''mA'')"
    by (simp add: cov_data_def mask_of_def example_tracers_def)
  have sf: "sep_free ''mA''" "sep_free ''mB''"
    by (simp_all add: sep_free_def endswith_def)
  have out: "output_path (cov_data [] []) = ''out''"
    by (simp add: cov_data_def)
  from cwsp_path_same_iff_masks
    [of "cov_data [] []" "(''A'', ''B'', ''A'', ''B'')" "''mA''" "''mB''" "''mA''" "''mB''"
        "(''B'', ''A'', ''B'', ''A'')" "''mB''" "''mA''" "''mB''" "''mA''"]
    a b sf
  have "cwsp_path (cov_data [] []) (''A'', ''B'', ''A'', ''B'') =
       Inr (path_join ''out''
             (''cov/cw__'' @ ''mA'' @ ''__'' @ ''mB'' @ ''__'' @ ''mA'' @ ''__'' @ ''mB'' @ ''.fits''))
     \<and> (cwsp_path (cov_data [] []) (''A'', ''B'', ''A'', ''B'')
          = cwsp_path (cov_data [] []) (''B'', ''A'', ''B'', ''A'')
        \<longleftrightarrow> (''mA'', ''mB'', ''mA'', ''mB'') = (''mB'', ''mA'', ''mB'', ''mA''))"
    unfolding out by blast
  then show ?thesis
    by (auto simp: path_join_def endswith_def)
qed

text \<open>
  C4, as the claim states it: the tasks \<open>(A,B,A,B)\<close> and \<open>(B,A,B,A)\<close>, one in each
  partition, would collapse into a single task and a single workspace group. Both stay in
  the task list, and each gets a group of its own.
\<close>

theorem permuted_tasks_counterexample:
  "cov_tracers_all (cov_data [(''A'', ''B'', ''A'', ''B'')] [(''B'', ''A'', ''B'', ''A'')])
     = [(''A'', ''B'', ''A'', ''B''), (''B'', ''A'', ''B'', ''A'')]
   \<and> get_jobs_with_same_cwsp
       (cov_data [(''A'', ''B'', ''A'', ''B'')] [(''B'', ''A'', ''B'', ''A'')])
     = Inr [(''out/cov/cw__mA__mB__mA__mB.fits'', [(''A'', ''B'', ''A'', ''B'')]),
            (''out/cov/cw__mB__mA__mB__mA.fits'', [(''B'', ''A'', ''B'', ''A'')])]"
  by (simp add: get_jobs_with_same_cwsp_def cov_tracers_all_def unique_rows_def
      cov_data_def cwsp_path_def mask_of_def example_tracers_def cwsp_name_def
      path_join_def endswith_def)

text \<open>
  C4, amended. The full covariance task list is the merge of the two partitions, sorted,
  with exact duplicates removed: it holds every task of either partition exactly once,
  a task being the ordered tuple of its four tracers (a permutation that differs as a
  tuple is another task). In the grouping built from it the paths are distinct keys, and
  the group of a path is the list of the tasks with that path, which is never empty: two
  tasks are in one group exactly when their paths are equal.
\<close>

theorem cov_tracers_all_exact_duplicates:
  "set (cov_tracers_all dat) = set (get_cov_trs_names dat True) \<union> set (get_cov_trs_names dat False)
   \<and> distinct (cov_tracers_all dat)
   \<and> sorted (cov_tracers_all dat)
   \<and> (get_jobs_with_same_cwsp dat = Inr cwsp \<longrightarrow>
        distinct (map fst cwsp)
        \<and> (\<forall>fname ts. (fname, ts) \<in> set cwsp \<longleftrightarrow>
             ts \<noteq> [] \<and> ts = filter (\<lambda>t. cwsp_path dat t = Inr fname) (cov_tracers_all dat)))"
  using get_jobs_groups [of dat cwsp]
  by (simp add: cov_tracers_all_def unique_rows_props)

theorem cov_tracers_all_exact_duplicates_witness:
  "distinct (cov_tracers_all
      (cov_data [(''A'', ''B'', ''A'', ''B'')] [(''A'', ''B'', ''A'', ''B''), (''A'', ''A'', ''A'', ''A'')]))
   \<and> get_jobs_with_same_cwsp
       (cov_data [(''A'', ''B'', ''A'', ''B'')] [(''A'', ''B'', ''A'', ''B''), (''A'', ''A'', ''A'', ''A'')])
     = Inr [(''out/cov/cw__mA__mA__mA__mA.fits'', [(''A'', ''A'', ''A'', ''A'')]),
            (''out/cov/cw__mA__mB__mA__mB.fits'', [(''A'', ''B'', ''A'', ''B'')])]
   \<and> distinct [''out/cov/cw__mA__mA__mA__mA.fits'', ''out/cov/cw__mA__mB__mA__mB.fits'']"
proof -
  have e: "get_jobs_with_same_cwsp
       (cov_data [(''A'', ''B'', ''A'', ''B'')] [(''A'', ''B'', ''A'', ''B''), (''A'', ''A'', ''A'', ''A'')])
     = Inr [(''out/cov/cw__mA__mA__mA__mA.fits'', [(''A'', ''A'', ''A'', ''A'')]),
            (''out/cov/cw__mA__mB__mA__mB.fits'', [(''A'', ''B'', ''A'', ''B'')])]"
    by (simp add: get_jobs_with_same_cwsp_def cov_tracers_all_def unique_rows_def
        cov_data_def cwsp_path_def mask_of_def example_tracers_def cwsp_name_def
        path_join_def endswith_def)
  from cov_tracers_all_exact_duplicates
    [of "cov_data [(''A'', ''B'', ''A'', ''B'')] [(''A'', ''B'', ''A'', ''B''), (''A'', ''A'', ''A'', ''A'')]"
        "[(''out/cov/cw__mA__mA__mA__mA.fits'', [(''A'', ''A'', ''A'', ''A'')]),
          (''out/cov/cw__mA__mB__mA__mB.fits'', [(''A'', ''B'', ''A'', ''B'')])]"] e
  show ?thesis by simp
qed

section \<open>Properties of the job cap\<close>












section \<open>Properties of the batched launcher\<close>



lemma overlap_groups:
  "get_jobs_with_same_cwsp overlap_data =
     Inr [(''out/cov/cw__mA__mA__mA__mA.fits'', [(''A'', ''A'', ''A'', ''A'')]),
          (''out/cov/cw__mA__mA__mA__mB.fits'', [(''A'', ''A'', ''A'', ''B'')]),
          (''out/cov/cw__mA__mA__mB__mB.fits'', [(''A'', ''A'', ''B'', ''B'')])]"
  by (simp add: overlap_data_def get_jobs_with_same_cwsp_def cov_tracers_all_def unique_rows_def
      cov_data_def cwsp_path_def mask_of_def example_tracers_def cwsp_name_def
      path_join_def endswith_def)







lemma startswith_first:
  "startswith l (c # p) \<Longrightarrow> \<exists>r. l = c # r"
  by (cases l) auto







text \<open>
  C7. Each inner script is to be run by exactly one node script. With three groups, two
  jobs per node and two nodes, the slice \<open>sh_tbc[nodei : (nodei + 1) * njobs]\<close> gives the
  node 0 the first and the second inner script and the node 1 the second and the third:
  the second inner script is run by both node scripts.
\<close>

theorem node_scripts_overlap:
  "(case launch_cov_batches2 overlap_data overlap_args empty_launcher of
      Inl e \<Rightarrow> None
    | Inr s \<Rightarrow> Some (drop 6 (written s), submitted s))
   = Some ([(''out/run_batches/batch0-2_T.sh'',
             node_script [''out/run_batches/cw__mA__mA__mA__mA.fits.sh'',
                          ''out/run_batches/cw__mA__mA__mA__mB.fits.sh'']),
            (''out/run_batches/batch1-2_T.sh'',
             node_script [''out/run_batches/cw__mA__mA__mA__mB.fits.sh'',
                          ''out/run_batches/cw__mA__mA__mB__mB.fits.sh''])],
           [''/bin/bash out/run_batches/batch0-2_T.sh'',
            ''/bin/bash out/run_batches/batch1-2_T.sh''])"
  unfolding launch_cov_batches2_def overlap_groups
  by (simp add: overlap_data_def overlap_args_def example_args_def empty_launcher_def
      cov_data_def group_body_def consult_def create_lock_file_def write_file_def
      cov_output_def cov_comment_def task_trs_def cov_command_def path_join_def endswith_def
      basename_def Let_def upto.simps py_slice_def str_int_def str_nat.simps get_pyexec_def
      os_system_def)

end
